theory Spec2Isabelle
  imports Complex_Main "HOL-Library.Log_Nat"
begin

section \<open>Landmark matrices and the enclosing bounding box\<close>

text \<open>
  \<^verbatim>\<open>cv::Mat\<close> as \<^verbatim>\<open>get_enclosing_bbox\<close> reads it: a single-channel matrix, given as the
  list of its rows. The rows of a matrix have one length; no fact below depends on it. The
  elements are finite floating-point numbers, each given as the real number it denotes.
\<close>

type_synonym Mat = "real list list"

definition cols :: "Mat \<Rightarrow> nat" where
  "cols m = (case m of [] \<Rightarrow> 0 | r # _ \<Rightarrow> length r)"

text \<open>\<^verbatim>\<open>m.colRange(startcol, endcol)\<close>: the columns \<open>startcol ..< endcol\<close> of every row.\<close>

definition colRange :: "Mat \<Rightarrow> nat \<Rightarrow> nat \<Rightarrow> Mat" where
  "colRange m startcol endcol = map (\<lambda>r. take (endcol - startcol) (drop startcol r)) m"

text \<open>
  \<^verbatim>\<open>cv::minMaxLoc(src, &minVal, &maxVal)\<close> of OpenCV: the smallest and the largest element,
  both found without rounding. What the call does on an array without elements is decided
  inside OpenCV and by nothing in this program; the result is \<open>None\<close> there, and nothing
  is derived from it.
\<close>

definition minMaxLoc :: "Mat \<Rightarrow> (real \<times> real) option" where
  "minMaxLoc src =
     (case concat src of [] \<Rightarrow> None | v # vs \<Rightarrow> Some (fold min vs v, fold max vs v))"

text \<open>
  Arithmetic on \<^verbatim>\<open>double\<close> (IEEE 754 binary64, rounding to nearest). The subtraction
  \<^verbatim>\<open>max_x_val - min_x_val\<close> delivers the exact difference rounded to the nearest number
  with a significand of 53 bits, a tie going to the neighbour whose last bit is zero; a
  result of magnitude \<open>2 ^ 1024\<close> or more is not a finite number (\<open>None\<close>). The exact
  difference of two \<^verbatim>\<open>double\<close> values is a multiple of the smallest subnormal number, so
  no further rounding occurs near zero.

  \<open>round_to_even\<close> rounds to the nearest integer, a tie to the even one.
  \<open>binary_exponent v\<close> is the exponent \<open>e\<close> with \<open>2 ^ e \<le> \<bar>v\<bar> < 2 ^ (e + 1)\<close>, read off the
  bit length of the integer part of \<open>\<bar>v\<bar>\<close>, or of \<open>1 / \<bar>v\<bar>\<close> below one (it is the
  floor of the binary logarithm of \<open>\<bar>v\<bar>\<close>, lemma \<open>binary_exponent_log\<close>).
  \<open>double_round\<close> rounds to a multiple of the unit in the last of 53 places.
\<close>

definition round_to_even :: "real \<Rightarrow> int" where
  "round_to_even y =
     (let f = \<lfloor>y\<rfloor>; d = y - real_of_int f
      in if d < 1 / 2 then f else if 1 / 2 < d then f + 1 else if even f then f else f + 1)"

definition binary_exponent :: "real \<Rightarrow> int" where
  "binary_exponent v =
     (if 1 \<le> \<bar>v\<bar> then bitlen \<lfloor>\<bar>v\<bar>\<rfloor> - 1 else - bitlen (\<lceil>1 / \<bar>v\<bar>\<rceil> - 1))"

definition double_round :: "real \<Rightarrow> real" where
  "double_round v =
     (if v = 0 then 0
      else let ulp = 2 powi (binary_exponent v - 52)
           in real_of_int (round_to_even (v / ulp)) * ulp)"

definition double_sub :: "real \<Rightarrow> real \<Rightarrow> real option" where
  "double_sub a b = (let d = double_round (a - b) in if \<bar>d\<bar> < 2 ^ 1024 then Some d else None)"

text \<open>\<^verbatim>\<open>cv::Rect_<T>\<close>.\<close>

record 'a Rect =
  rect_x :: 'a
  rect_y :: 'a
  rect_width :: 'a
  rect_height :: 'a

text \<open>
  Where the program text alone does not fix a box of finite numbers: a \<^verbatim>\<open>minMaxLoc\<close> call
  on an array without elements, a difference that is not finite, and a conversion whose
  behaviour C++ leaves undefined.
\<close>

datatype undetermined = NoElements | NotFinite | UndefinedConversion

text \<open>
  The constructor \<^verbatim>\<open>cv::Rect_<T>(T x, T y, T width, T height)\<close> called with four
  \<^verbatim>\<open>double\<close> arguments: each is converted to \<open>T\<close> at the call. \<open>conv\<close> is that
  conversion; \<open>None\<close> is a conversion whose behaviour C++ leaves undefined.
\<close>

definition Rect_ctor ::
  "(real \<Rightarrow> 'a option) \<Rightarrow> real \<Rightarrow> real \<Rightarrow> real \<Rightarrow> real \<Rightarrow> undetermined + 'a Rect" where
  "Rect_ctor conv vx vy vw vh =
     (case conv vx of None \<Rightarrow> Inl UndefinedConversion | Some a \<Rightarrow>
      (case conv vy of None \<Rightarrow> Inl UndefinedConversion | Some b \<Rightarrow>
      (case conv vw of None \<Rightarrow> Inl UndefinedConversion | Some c \<Rightarrow>
      (case conv vh of None \<Rightarrow> Inl UndefinedConversion | Some d \<Rightarrow>
         Inr \<lparr>rect_x = a, rect_y = b, rect_width = c, rect_height = d\<rparr>))))"

text \<open>
  \<^verbatim>\<open>double\<close> to \<^verbatim>\<open>int\<close>: the fractional part is discarded (truncation toward zero);
  the behaviour is undefined when the truncated value is not a 32-bit \<^verbatim>\<open>int\<close>.
\<close>

definition double_to_int :: "real \<Rightarrow> int option" where
  "double_to_int v =
     (let t = (if 0 \<le> v then \<lfloor>v\<rfloor> else \<lceil>v\<rceil>)
      in if - (2 ^ 31) \<le> t \<and> t < 2 ^ 31 then Some t else None)"

text \<open>\<^verbatim>\<open>template<class T = int> cv::Rect_<T> get_enclosing_bbox(cv::Mat landmarks)\<close>.\<close>

definition get_enclosing_bbox :: "(real \<Rightarrow> 'a option) \<Rightarrow> Mat \<Rightarrow> undetermined + 'a Rect" where
  "get_enclosing_bbox conv landmarks =
     (let num_landmarks = cols landmarks div 2
      in case minMaxLoc (colRange landmarks 0 num_landmarks) of
           None \<Rightarrow> Inl NoElements
         | Some (min_x_val, max_x_val) \<Rightarrow>
            (case minMaxLoc (colRange landmarks num_landmarks (cols landmarks)) of
               None \<Rightarrow> Inl NoElements
             | Some (min_y_val, max_y_val) \<Rightarrow>
                (case double_sub max_x_val min_x_val of
                   None \<Rightarrow> Inl NotFinite
                 | Some width \<Rightarrow>
                    (case double_sub max_y_val min_y_val of
                       None \<Rightarrow> Inl NotFinite
                     | Some height \<Rightarrow> Rect_ctor conv min_x_val min_y_val width height))))"

text \<open>The default instantiation \<open>T = int\<close>, and the instantiation \<open>T = double\<close>.\<close>

definition get_enclosing_bbox_int :: "Mat \<Rightarrow> undetermined + int Rect" where
  "get_enclosing_bbox_int = get_enclosing_bbox double_to_int"

definition get_enclosing_bbox_double :: "Mat \<Rightarrow> undetermined + real Rect" where
  "get_enclosing_bbox_double = get_enclosing_bbox Some"

section \<open>Landmark sets\<close>

text \<open>
  A landmark set is an ordered collection of points. \<^verbatim>\<open>get_enclosing_bbox\<close> reads it
  as one row of \<open>2 * n\<close> columns: the \<open>x\<close> coordinates in columns \<open>0 ..< n\<close>, the \<open>y\<close>
  coordinates in columns \<open>n ..< 2 * n\<close>.
\<close>

type_synonym LandmarkSet = "(real \<times> real) list"

definition landmark_row :: "LandmarkSet \<Rightarrow> Mat" where
  "landmark_row landmarks = [map fst landmarks @ map snd landmarks]"

datatype geometry_error = InvalidInput | DegenerateGeometry

text \<open>
  The specification of the box, in the words of its section 4.1, for the comparison with
  \<^verbatim>\<open>get_enclosing_bbox\<close>: \<open>enclosingBoundingBox\<close> takes the minimum and the maximum over
  all \<open>x\<close> and over all \<open>y\<close> coordinates, and fails with \<open>InvalidInput\<close> on the empty
  set. The source has no such error.
\<close>

definition enclosingBoundingBox :: "LandmarkSet \<Rightarrow> geometry_error + real Rect" where
  "enclosingBoundingBox landmarks =
     (if landmarks = [] then Inl InvalidInput
      else let minX = Min (set (map fst landmarks)); maxX = Max (set (map fst landmarks));
               minY = Min (set (map snd landmarks)); maxY = Max (set (map snd landmarks))
           in Inr \<lparr>rect_x = minX, rect_y = minY, rect_width = maxX - minX, rect_height = maxY - minY\<rparr>)"

text \<open>
  Modelled from the spec: \<open>scaleFactor\<close> is missing from the source, whose only trace of
  a rescaling step is the commented-out block in the tracking branch of \<^verbatim>\<open>main\<close>.
  Section 4.1: compute \<open>enclosingBoundingBox\<close> for both sets and return
  \<open>(subject.width / reference.width, subject.height / reference.height)\<close>;
  \<open>DegenerateGeometry\<close> when the reference box has zero width or height.
\<close>

definition scaleFactor :: "LandmarkSet \<Rightarrow> LandmarkSet \<Rightarrow> geometry_error + real \<times> real" where
  "scaleFactor subject reference =
     (case enclosingBoundingBox subject of
        Inl e \<Rightarrow> Inl e
      | Inr s \<Rightarrow>
         (case enclosingBoundingBox reference of
            Inl e \<Rightarrow> Inl e
          | Inr r \<Rightarrow>
             if rect_width r = 0 \<or> rect_height r = 0 then Inl DegenerateGeometry
             else Inr (rect_width s / rect_width r, rect_height s / rect_height r)))"

text \<open>Containment of every point, and a point on each of the four sides.\<close>

definition encloses :: "real Rect \<Rightarrow> LandmarkSet \<Rightarrow> bool" where
  "encloses b landmarks =
     list_all (\<lambda>p. rect_x b \<le> fst p \<and> fst p \<le> rect_x b + rect_width b \<and>
                    rect_y b \<le> snd p \<and> snd p \<le> rect_y b + rect_height b) landmarks"

definition tight :: "real Rect \<Rightarrow> LandmarkSet \<Rightarrow> bool" where
  "tight b landmarks =
     (list_ex (\<lambda>p. fst p = rect_x b) landmarks \<and>
      list_ex (\<lambda>p. fst p = rect_x b + rect_width b) landmarks \<and>
      list_ex (\<lambda>p. snd p = rect_y b) landmarks \<and>
      list_ex (\<lambda>p. snd p = rect_y b + rect_height b) landmarks)"

text \<open>An integer box read in image coordinates.\<close>

definition real_Rect :: "int Rect \<Rightarrow> real Rect" where
  "real_Rect b = \<lparr>rect_x = real_of_int (rect_x b), rect_y = real_of_int (rect_y b),
                  rect_width = real_of_int (rect_width b), rect_height = real_of_int (rect_height b)\<rparr>"

text \<open>Coordinates that are whole numbers of magnitude below \<open>2 ^ 30\<close>.\<close>

definition whole_coordinates :: "LandmarkSet \<Rightarrow> bool" where
  "whole_coordinates landmarks =
     list_all (\<lambda>p. fst p \<in> \<int> \<and> snd p \<in> \<int> \<and> \<bar>fst p\<bar> < 2 ^ 30 \<and> \<bar>snd p\<bar> < 2 ^ 30) landmarks"

section \<open>The frame loop of main\<close>

text \<open>
  The collaborators of the loop, each a function of what it is given: \<^verbatim>\<open>image.empty()\<close>,
  \<^verbatim>\<open>face_cascade.detectMultiScale(image, detected_faces, ...)\<close>,
  \<^verbatim>\<open>cv::rectangle(image, rect, colour)\<close> and \<^verbatim>\<open>rcr::draw_landmarks(image, landmarks)\<close>
  (each gives the image as the call leaves it: both draw into the image they are passed),
  and \<^verbatim>\<open>rcr_model.detect(image, rect)\<close>.
\<close>

record ('img, 'lm) collaborators =
  mat_empty :: "'img \<Rightarrow> bool"
  detectMultiScale :: "'img \<Rightarrow> int Rect list"
  rectangle :: "'img \<Rightarrow> int Rect \<Rightarrow> 'img"
  model_detect :: "'img \<Rightarrow> int Rect \<Rightarrow> 'lm list"
  draw_landmarks :: "'img \<Rightarrow> 'lm list \<Rightarrow> 'img"

text \<open>The calls the loop makes, in order, each with the image as it is at the call.\<close>

datatype ('img, 'lm) event =
    DetectMultiScale 'img
  | Rectangle 'img "int Rect"
  | ModelDetect 'img "int Rect"
  | DrawLandmarks 'img "'lm list"
  | CoutTimings
  | Imshow 'img
  | WaitKey

text \<open>
  The variables of \<^verbatim>\<open>main\<close> that live across iterations: \<^verbatim>\<open>have_face\<close>,
  \<^verbatim>\<open>current_landmarks\<close> and the image buffer \<^verbatim>\<open>image\<close>; \<open>trace\<close> records the calls.
\<close>

record ('img, 'lm) track_state =
  have_face :: bool
  current_landmarks :: "'lm list"
  image_mat :: "'img"
  trace :: "('img, 'lm) event list"

definition init_state :: "'img \<Rightarrow> ('img, 'lm) track_state" where
  "init_state img0 = \<lparr>have_face = False, current_landmarks = [], image_mat = img0, trace = []\<rparr>"

definition emit :: "('img, 'lm) event \<Rightarrow> ('img, 'lm) track_state \<Rightarrow> ('img, 'lm) track_state" where
  "emit ev s = s\<lparr>trace := trace s @ [ev]\<rparr>"

datatype control = Continue | Break

text \<open>\<^verbatim>\<open>if (cv::waitKey(30) >= 0) break;\<close> where \<open>key\<close> is what \<^verbatim>\<open>waitKey\<close> returns.\<close>

definition break_on_key :: "int \<Rightarrow> control" where
  "break_on_key key = (if 0 \<le> key then Break else Continue)"

text \<open>
  One iteration, from after \<^verbatim>\<open>cap >> image\<close> and the test for an empty image to the end
  of the body. In the branch without a detected face the result of \<^verbatim>\<open>waitKey\<close> is not
  looked at. The branch for \<^verbatim>\<open>have_face\<close> holds comments only.
\<close>

definition loop_body ::
  "('img, 'lm) collaborators \<Rightarrow> int \<Rightarrow> ('img, 'lm) track_state \<Rightarrow> control \<times> ('img, 'lm) track_state" where
  "loop_body c key s =
     (if \<not> have_face s then
        (let detected_faces = detectMultiScale c (image_mat s);
             s1 = emit (DetectMultiScale (image_mat s)) s
         in case detected_faces of
              [] \<Rightarrow> (Continue, emit WaitKey (emit (Imshow (image_mat s1)) s1))
            | face # _ \<Rightarrow>
               (let s2 = (emit (Rectangle (image_mat s1) face) s1)
                           \<lparr>image_mat := rectangle c (image_mat s1) face\<rparr>;
                    s3 = (emit (ModelDetect (image_mat s2) face) s2)
                           \<lparr>current_landmarks := model_detect c (image_mat s2) face\<rparr>;
                    s4 = (emit (DrawLandmarks (image_mat s3) (current_landmarks s3)) s3)
                           \<lparr>image_mat := draw_landmarks c (image_mat s3) (current_landmarks s3)\<rparr>;
                    s5 = emit CoutTimings s4
                in (break_on_key key, emit WaitKey (emit (Imshow (image_mat s5)) s5))))
      else (break_on_key key, emit WaitKey (emit (Imshow (image_mat s)) s)))"

text \<open>
  The loop \<^verbatim>\<open>for (;;)\<close> over the frames the capture delivers, each paired with what
  \<^verbatim>\<open>waitKey\<close> returns in its iteration. The list ends where the source delivers nothing
  more: \<^verbatim>\<open>cap >> image\<close> then leaves an empty image and the loop stops.
\<close>

fun run_loop ::
  "('img, 'lm) collaborators \<Rightarrow> ('img \<times> int) list \<Rightarrow> ('img, 'lm) track_state \<Rightarrow> ('img, 'lm) track_state" where
  "run_loop c [] s = s"
| "run_loop c ((frame, key) # rest) s =
     (if mat_empty c frame then s\<lparr>image_mat := frame\<rparr>
      else (case loop_body c key (s\<lparr>image_mat := frame\<rparr>) of
              (Break, s') \<Rightarrow> s'
            | (Continue, s') \<Rightarrow> run_loop c rest s'))"

text \<open>The images handed to the detector, to the landmark model and to the display.\<close>

fun detector_inputs :: "('img, 'lm) event list \<Rightarrow> 'img list" where
  "detector_inputs [] = []"
| "detector_inputs (DetectMultiScale i # es) = i # detector_inputs es"
| "detector_inputs (_ # es) = detector_inputs es"

fun model_inputs :: "('img, 'lm) event list \<Rightarrow> ('img \<times> int Rect) list" where
  "model_inputs [] = []"
| "model_inputs (ModelDetect i r # es) = (i, r) # model_inputs es"
| "model_inputs (_ # es) = model_inputs es"

fun shown :: "('img, 'lm) event list \<Rightarrow> 'img list" where
  "shown [] = []"
| "shown (Imshow i # es) = i # shown es"
| "shown (_ # es) = shown es"

text \<open>The calls that draw: \<^verbatim>\<open>cv::rectangle\<close> and \<^verbatim>\<open>rcr::draw_landmarks\<close>.\<close>

fun drawing :: "('img, 'lm) event \<Rightarrow> bool" where
  "drawing (Rectangle _ _) = True"
| "drawing (DrawLandmarks _ _) = True"
| "drawing _ = False"

text \<open>
  What an iteration without a detected face adds to the trace: the detector call, the
  display of the frame as it was captured, and \<^verbatim>\<open>waitKey\<close>.
\<close>

definition raw_frame_events :: "('img \<times> int) \<Rightarrow> ('img, 'lm) event list" where
  "raw_frame_events input = [DetectMultiScale (fst input), Imshow (fst input), WaitKey]"

section \<open>Start-up of main\<close>

definition EXIT_SUCCESS :: int where
  "EXIT_SUCCESS = 0"

definition EXIT_FAILURE :: int where
  "EXIT_FAILURE = 1"

text \<open>
  What \<^verbatim>\<open>main\<close> meets before the loop. \<open>po_store\<close>: \<^verbatim>\<open>po::store\<close> throws a
  \<^verbatim>\<open>po::error\<close> (\<open>Inl\<close>, with \<^verbatim>\<open>e.what()\<close>) or fills the variables map (\<open>Inr\<close>, with
  whether \<^verbatim>\<open>vm.count("help")\<close> is non-zero). \<open>po_notify\<close>: \<^verbatim>\<open>po::notify\<close> throws a
  \<^verbatim>\<open>po::error\<close> (\<open>Some\<close>) or returns. \<open>load_detection_model\<close>: a \<^verbatim>\<open>cereal::Exception\<close>
  (\<open>Some\<close>) or the model. \<open>face_cascade_load\<close> and \<open>cap_isOpened\<close>: what the two calls
  return. \<open>frames\<close>: what the capture and \<^verbatim>\<open>waitKey\<close> deliver to the loop.
\<close>

record 'img environment =
  po_store :: "string + bool"
  po_notify :: "string option"
  load_detection_model :: "string option"
  face_cascade_load :: bool
  cap_isOpened :: bool
  frames :: "('img \<times> int) list"

text \<open>What \<^verbatim>\<open>main\<close> writes to \<^verbatim>\<open>cout\<close> outside the loop.\<close>

datatype message =
    Usage
  | ParseError string
  | HelpHint
  | ModelReadError string
  | DetectorLoadError
  | CaptureOpenError

text \<open>\<^verbatim>\<open>main\<close>: the exit status, the messages, and the state the loop ends in when it ran.\<close>

definition main ::
  "('img, 'lm) collaborators \<Rightarrow> 'img environment \<Rightarrow> 'img \<Rightarrow> int \<times> message list \<times> ('img, 'lm) track_state option" where
  "main c env img0 =
     (case po_store env of
        Inl what \<Rightarrow> (EXIT_SUCCESS, [ParseError what, HelpHint], None)
      | Inr help \<Rightarrow>
         if help then (EXIT_SUCCESS, [Usage], None)
         else (case po_notify env of
                 Some what \<Rightarrow> (EXIT_SUCCESS, [ParseError what, HelpHint], None)
               | None \<Rightarrow>
                  (case load_detection_model env of
                     Some what \<Rightarrow> (EXIT_FAILURE, [ModelReadError what], None)
                   | None \<Rightarrow>
                      if \<not> face_cascade_load env then (EXIT_FAILURE, [DetectorLoadError], None)
                      else if \<not> cap_isOpened env then (EXIT_FAILURE, [CaptureOpenError], None)
                      else (EXIT_SUCCESS, [], Some (run_loop c (frames env) (init_state img0))))))"

section \<open>A concrete instance\<close>

text \<open>
  Frames that carry a number and the overlays drawn on them so far. The detector finds
  no face on frame \<open>0\<close> and two faces on every other frame; the landmark model answers
  with the two upper corners of the box it is given.
\<close>

datatype overlay = Box "int Rect" | Marks "(int \<times> int) list"

type_synonym canvas = "nat \<times> overlay list"

definition face_a :: "int Rect" where
  "face_a = \<lparr>rect_x = 100, rect_y = 50, rect_width = 80, rect_height = 80\<rparr>"

definition face_b :: "int Rect" where
  "face_b = \<lparr>rect_x = 300, rect_y = 60, rect_width = 64, rect_height = 64\<rparr>"

definition studio :: "(canvas, int \<times> int) collaborators" where
  "studio = \<lparr>mat_empty = (\<lambda>_. False),
             detectMultiScale = (\<lambda>img. if fst img = 0 then [] else [face_a, face_b]),
             rectangle = (\<lambda>img r. (fst img, snd img @ [Box r])),
             model_detect = (\<lambda>img r. [(rect_x r, rect_y r), (rect_x r + rect_width r, rect_y r)]),
             draw_landmarks = (\<lambda>img lms. (fst img, snd img @ [Marks lms]))\<rparr>"

section \<open>Facts about the matrix operations\<close>

lemma fold_min_Min: "fold min vs (v::real) = Min (set (v # vs))"
  by (rule Min.set_eq_fold [symmetric])

lemma fold_max_Max: "fold max vs (v::real) = Max (set (v # vs))"
  by (rule Max.set_eq_fold [symmetric])

lemma minMaxLoc_row:
  assumes "r \<noteq> []"
  shows "minMaxLoc [r] = Some (Min (set r), Max (set r))"
proof (cases r)
  case Nil
  with assms show ?thesis by simp
next
  case (Cons v vs)
  have "minMaxLoc [r] = Some (fold min vs v, fold max vs v)"
    by (simp add: minMaxLoc_def Cons)
  then show ?thesis
    by (simp only: fold_min_Min fold_max_Max Cons)
qed

lemma colRange_landmark_row_x:
  "colRange (landmark_row ps) 0 (cols (landmark_row ps) div 2) = [map fst ps]"
  by (simp add: colRange_def landmark_row_def cols_def)

lemma colRange_landmark_row_y:
  "colRange (landmark_row ps) (cols (landmark_row ps) div 2) (cols (landmark_row ps)) = [map snd ps]"
  by (simp add: colRange_def landmark_row_def cols_def)

lemma get_enclosing_bbox_landmark_row:
  assumes "ps \<noteq> []"
  shows "get_enclosing_bbox conv (landmark_row ps) =
         (case double_sub (Max (set (map fst ps))) (Min (set (map fst ps))) of
            None \<Rightarrow> Inl NotFinite
          | Some w \<Rightarrow>
             (case double_sub (Max (set (map snd ps))) (Min (set (map snd ps))) of
                None \<Rightarrow> Inl NotFinite
              | Some h \<Rightarrow> Rect_ctor conv (Min (set (map fst ps))) (Min (set (map snd ps))) w h))"
  using assms
  by (simp add: get_enclosing_bbox_def Let_def colRange_landmark_row_x colRange_landmark_row_y
      minMaxLoc_row del: set_map)

lemma Rect_ctor_Some:
  "Rect_ctor Some a b c d = Inr \<lparr>rect_x = a, rect_y = b, rect_width = c, rect_height = d\<rparr>"
  by (simp add: Rect_ctor_def)

lemma get_enclosing_bbox_conv:
  "get_enclosing_bbox_double landmarks = Inr b \<Longrightarrow>
   get_enclosing_bbox conv landmarks =
     Rect_ctor conv (rect_x b) (rect_y b) (rect_width b) (rect_height b)"
  by (auto simp: get_enclosing_bbox_double_def get_enclosing_bbox_def Let_def Rect_ctor_Some
      split: prod.splits option.splits)

lemma spec_box:
  assumes "ps \<noteq> []"
  shows "enclosingBoundingBox ps =
         Inr \<lparr>rect_x = Min (set (map fst ps)), rect_y = Min (set (map snd ps)),
              rect_width = Max (set (map fst ps)) - Min (set (map fst ps)),
              rect_height = Max (set (map snd ps)) - Min (set (map snd ps))\<rparr>"
  using assms by (simp add: enclosingBoundingBox_def Let_def del: set_map)

text \<open>
  On a non-empty set the result of the instantiation \<open>T = double\<close> is the specified box
  with its two extents rounded, unless a rounded extent is not finite.
\<close>

lemma bbox_double_rounds_spec:
  assumes "enclosingBoundingBox ps = Inr sb"
  shows "get_enclosing_bbox_double (landmark_row ps) =
         (if \<bar>double_round (rect_width sb)\<bar> < 2 ^ 1024 \<and> \<bar>double_round (rect_height sb)\<bar> < 2 ^ 1024
          then Inr \<lparr>rect_x = rect_x sb, rect_y = rect_y sb,
                    rect_width = double_round (rect_width sb),
                    rect_height = double_round (rect_height sb)\<rparr>
          else Inl NotFinite)"
proof -
  from assms have ne: "ps \<noteq> []" by (auto simp: enclosingBoundingBox_def split: if_splits)
  from assms have sb: "sb = \<lparr>rect_x = Min (set (map fst ps)), rect_y = Min (set (map snd ps)),
      rect_width = Max (set (map fst ps)) - Min (set (map fst ps)),
      rect_height = Max (set (map snd ps)) - Min (set (map snd ps))\<rparr>"
    by (simp add: spec_box [OF ne])
  show ?thesis
    unfolding get_enclosing_bbox_double_def get_enclosing_bbox_landmark_row [OF ne]
    by (simp add: sb double_sub_def Let_def Rect_ctor_Some del: set_map)
qed

lemma spec_box_encloses:
  assumes "enclosingBoundingBox ps = Inr b"
  shows "encloses b ps"
proof -
  from assms have ne: "ps \<noteq> []" by (auto simp: enclosingBoundingBox_def split: if_splits)
  have fx: "finite (set (map fst ps))" and fy: "finite (set (map snd ps))" by simp_all
  from assms ne have b: "b = \<lparr>rect_x = Min (set (map fst ps)), rect_y = Min (set (map snd ps)),
      rect_width = Max (set (map fst ps)) - Min (set (map fst ps)),
      rect_height = Max (set (map snd ps)) - Min (set (map snd ps))\<rparr>"
    by (simp add: enclosingBoundingBox_def Let_def del: set_map)
  show ?thesis
    unfolding encloses_def list_all_iff
  proof
    fix p assume p: "p \<in> set ps"
    then have "fst p \<in> set (map fst ps)" "snd p \<in> set (map snd ps)" by simp_all
    then have "Min (set (map fst ps)) \<le> fst p" "fst p \<le> Max (set (map fst ps))"
      "Min (set (map snd ps)) \<le> snd p" "snd p \<le> Max (set (map snd ps))"
      using fx fy by (simp_all del: set_map)
    then show "rect_x b \<le> fst p \<and> fst p \<le> rect_x b + rect_width b \<and>
         rect_y b \<le> snd p \<and> snd p \<le> rect_y b + rect_height b"
      by (simp add: b del: set_map)
  qed
qed

lemma spec_box_tight:
  assumes "enclosingBoundingBox ps = Inr b"
  shows "tight b ps"
proof -
  from assms have ne: "ps \<noteq> []" by (auto simp: enclosingBoundingBox_def split: if_splits)
  from assms ne have b: "b = \<lparr>rect_x = Min (set (map fst ps)), rect_y = Min (set (map snd ps)),
      rect_width = Max (set (map fst ps)) - Min (set (map fst ps)),
      rect_height = Max (set (map snd ps)) - Min (set (map snd ps))\<rparr>"
    by (simp add: enclosingBoundingBox_def Let_def del: set_map)
  have nx: "set (map fst ps) \<noteq> {}" and ny: "set (map snd ps) \<noteq> {}" using ne by simp_all
  have "Min (set (map fst ps)) \<in> set (map fst ps)" "Max (set (map fst ps)) \<in> set (map fst ps)"
    "Min (set (map snd ps)) \<in> set (map snd ps)" "Max (set (map snd ps)) \<in> set (map snd ps)"
    using Min_in [OF _ nx] Max_in [OF _ nx] Min_in [OF _ ny] Max_in [OF _ ny] by blast+
  then have "\<exists>p\<in>set ps. fst p = Min (set (map fst ps))" "\<exists>p\<in>set ps. fst p = Max (set (map fst ps))"
    "\<exists>p\<in>set ps. snd p = Min (set (map snd ps))" "\<exists>p\<in>set ps. snd p = Max (set (map snd ps))"
    by (simp_all only: set_map image_iff) (metis+)
  then show ?thesis
    by (simp add: tight_def list_ex_iff b del: set_map)
qed

section \<open>Facts about the arithmetic\<close>

lemma round_to_even_of_int: "round_to_even (real_of_int n) = n"
  by (simp add: round_to_even_def)

lemma round_to_even_error: "\<bar>real_of_int (round_to_even y) - y\<bar> \<le> 1 / 2"
proof -
  have "real_of_int \<lfloor>y\<rfloor> \<le> y" "y < real_of_int \<lfloor>y\<rfloor> + 1"
    using floor_correct [of y] by simp_all
  then show ?thesis
    by (auto simp: round_to_even_def Let_def)
qed

lemma bitlen_eqI:
  assumes "2 ^ n \<le> x" and "x < 2 ^ Suc n"
  shows "bitlen x = int n + 1"
proof -
  have pos: "0 < x"
    using assms(1) by (smt (verit) zero_less_power)
  have "real_of_int (2 ^ n) \<le> real_of_int x" "real_of_int x < real_of_int (2 ^ Suc n)"
    using assms by (simp_all only: of_int_le_iff of_int_less_iff)
  then have "2 powr real_of_int (int n) \<le> real_of_int x"
    "real_of_int x < 2 powr real_of_int (int n + 1)"
    by (simp_all add: powr_realpow powr_add)
  then have "\<lfloor>log 2 (real_of_int x)\<rfloor> = int n"
    using pos by (simp add: floor_log_eq_powr_iff)
  then show ?thesis
    using pos by (simp add: bitlen_alt_def)
qed

text \<open>The exponent is that of the power of two at or below the magnitude.\<close>

lemma binary_exponent_bounds:
  assumes "v \<noteq> 0"
  shows "2 powi binary_exponent v \<le> \<bar>v\<bar> \<and> \<bar>v\<bar> < 2 powi (binary_exponent v + 1)"
proof (cases "1 \<le> \<bar>v\<bar>")
  case True
  define m where "m = \<lfloor>\<bar>v\<bar>\<rfloor>"
  have m: "0 < m" using True by (simp add: m_def)
  define n where "n = nat (bitlen m - 1)"
  have b: "2 ^ n \<le> m" "m < 2 ^ nat (bitlen m)"
    using bitlen_bounds [OF m] by (simp_all add: n_def)
  have b1: "1 \<le> bitlen m"
    using m by (simp add: bitlen_alt_def)
  then have nb: "nat (bitlen m) = Suc n" "bitlen m - 1 = int n"
    by (simp_all add: n_def)
  have e: "binary_exponent v = int n"
    using True by (simp add: binary_exponent_def m_def [symmetric] nb)
  have "real_of_int (2 ^ n) \<le> real_of_int m"
    using b(1) by (simp only: of_int_le_iff)
  also have "\<dots> \<le> \<bar>v\<bar>" by (simp add: m_def)
  finally have lo: "2 ^ n \<le> \<bar>v\<bar>" by simp
  have "m + 1 \<le> 2 ^ Suc n"
    using b(2) nb by simp
  then have "real_of_int (m + 1) \<le> real_of_int (2 ^ Suc n)"
    by (simp only: of_int_le_iff)
  moreover have "\<bar>v\<bar> < real_of_int (m + 1)"
    unfolding m_def by linarith
  ultimately have hi: "\<bar>v\<bar> < 2 ^ Suc n" by simp
  show ?thesis
    unfolding e using lo hi by (simp add: power_int_add)
next
  case False
  then have lt: "\<bar>v\<bar> < 1" by simp
  have pos: "0 < \<bar>v\<bar>" using assms by simp
  define y where "y = 1 / \<bar>v\<bar>"
  have y1: "1 < y"
    using lt pos by (simp add: y_def)
  define c where "c = \<lceil>y\<rceil> - 1"
  have c: "0 < c" using y1 by (simp add: c_def)
  have cy: "real_of_int c < y" "y \<le> real_of_int c + 1"
    unfolding c_def by linarith+
  define n where "n = nat (bitlen c - 1)"
  have b: "2 ^ n \<le> c" "c < 2 ^ nat (bitlen c)"
    using bitlen_bounds [OF c] by (simp_all add: n_def)
  have b1: "1 \<le> bitlen c"
    using c by (simp add: bitlen_alt_def)
  then have nb: "nat (bitlen c) = Suc n" "bitlen c = int (Suc n)"
    by (simp_all add: n_def)
  have e: "binary_exponent v = - int (Suc n)"
    using False by (simp add: binary_exponent_def y_def [symmetric] c_def [symmetric] nb)
  have "real_of_int (2 ^ n) \<le> real_of_int c"
    using b(1) by (simp only: of_int_le_iff)
  then have "(2::real) ^ n \<le> real_of_int c" by simp
  with cy(1) have ylo: "2 ^ n < y" by linarith
  have "c + 1 \<le> 2 ^ Suc n"
    using b(2) nb by simp
  then have "real_of_int (c + 1) \<le> real_of_int (2 ^ Suc n)"
    by (simp only: of_int_le_iff)
  then have "real_of_int c + 1 \<le> 2 ^ Suc n" by simp
  with cy(2) have yhi: "y \<le> 2 ^ Suc n" by linarith
  have v: "\<bar>v\<bar> = 1 / y" using pos by (simp add: y_def)
  have ypos: "0 < y" using y1 by simp
  have lo: "1 / 2 ^ Suc n \<le> \<bar>v\<bar>"
    unfolding v using yhi ypos by (simp add: frac_le)
  have hi: "\<bar>v\<bar> < 1 / 2 ^ n"
    unfolding v using ylo by (simp add: frac_less2)
  have p1: "(2::real) powi (- int (Suc n)) = 1 / 2 ^ Suc n"
    by (simp only: power_int_minus power_int_of_nat inverse_eq_divide)
  have "- int (Suc n) + 1 = - int n" by simp
  then have p2: "(2::real) powi (- int (Suc n) + 1) = 1 / 2 ^ n"
    by (simp only: power_int_minus power_int_of_nat inverse_eq_divide)
  show ?thesis
    unfolding e p1 p2 using lo hi by simp
qed

lemma binary_exponent_log:
  assumes "v \<noteq> 0"
  shows "binary_exponent v = \<lfloor>log 2 \<bar>v\<bar>\<rfloor>"
proof -
  have p: "2 powr real_of_int k = 2 powi k" for k
    by (simp add: powr_real_of_int')
  have "2 powr real_of_int (binary_exponent v) \<le> \<bar>v\<bar>"
    "\<bar>v\<bar> < 2 powr real_of_int (binary_exponent v + 1)"
    unfolding p using binary_exponent_bounds [OF assms] by simp_all
  then have "2 powr real_of_int (binary_exponent v) \<le> \<bar>v\<bar> \<and>
      \<bar>v\<bar> < 2 powr real_of_int (binary_exponent v + 1)"
    by blast
  moreover have "0 < \<bar>v\<bar>" "(1::real) < 2"
    using assms by simp_all
  ultimately have "\<lfloor>log 2 \<bar>v\<bar>\<rfloor> = binary_exponent v"
    by (simp only: floor_log_eq_powr_iff)
  then show ?thesis by simp
qed

lemma double_round_error: "\<bar>double_round v - v\<bar> \<le> \<bar>v\<bar> / 2 ^ 53"
proof (cases "v = 0")
  case True
  then show ?thesis by (simp add: double_round_def)
next
  case False
  define L where "L = binary_exponent v"
  define s where "s = (2::real) powi (L - 52)"
  have lo: "2 powi L \<le> \<bar>v\<bar>"
    using binary_exponent_bounds [OF False] by (simp add: L_def)
  have s_pos: "0 < s" by (simp add: s_def)
  have s_eq: "s = 2 powi L / 2 ^ 52"
    by (simp add: s_def power_int_diff)
  have dr: "double_round v = real_of_int (round_to_even (v / s)) * s"
    using False by (simp add: double_round_def L_def s_def Let_def)
  have "\<bar>double_round v - v\<bar> = \<bar>real_of_int (round_to_even (v / s)) - v / s\<bar> * s"
  proof -
    have "double_round v - v = (real_of_int (round_to_even (v / s)) - v / s) * s"
      using s_pos by (simp add: dr field_simps)
    then show ?thesis
      using s_pos by (simp add: abs_mult)
  qed
  also have "\<dots> \<le> (1 / 2) * s"
    using round_to_even_error [of "v / s"] s_pos by (intro mult_right_mono) simp_all
  also have "\<dots> = 2 powi L / 2 ^ 53"
    by (simp add: s_eq)
  also have "\<dots> \<le> \<bar>v\<bar> / 2 ^ 53"
    using lo by (simp add: divide_right_mono)
  finally show ?thesis .
qed

lemma double_round_of_int:
  assumes "\<bar>k\<bar> < 2 ^ 53"
  shows "double_round (real_of_int k) = real_of_int k"
proof (cases "k = 0")
  case True
  then show ?thesis by (simp add: double_round_def)
next
  case False
  then have nz: "real_of_int k \<noteq> 0" by simp
  define L where "L = binary_exponent (real_of_int k)"
  have "2 powi L \<le> \<bar>real_of_int k\<bar>"
    using binary_exponent_bounds [OF nz] by (simp add: L_def)
  moreover have "\<bar>real_of_int k\<bar> < 2 powi 53"
  proof -
    have "real_of_int \<bar>k\<bar> < real_of_int (2 ^ 53)"
      using assms by (simp only: of_int_less_iff)
    then show ?thesis by simp
  qed
  ultimately have lt: "(2::real) powi L < 2 powi 53" by linarith
  have L: "L \<le> 52"
  proof (rule ccontr)
    assume "\<not> L \<le> 52"
    then have "53 \<le> L" by simp
    then have "(2::real) powi 53 \<le> 2 powi L"
      by (intro power_int_increasing) simp_all
    with lt show False by simp
  qed
  define n where "n = nat (52 - L)"
  define S where "S = (2::real) powi (L - 52)"
  have e: "S = 1 / 2 ^ n"
  proof -
    have h: "L - 52 = - int n"
      using L by (simp add: n_def)
    show ?thesis
      unfolding S_def h by (simp only: power_int_minus power_int_of_nat inverse_eq_divide)
  qed
  have "real_of_int k / S = real_of_int (k * 2 ^ n)"
    by (simp add: e)
  then have r: "round_to_even (real_of_int k / S) = k * 2 ^ n"
    by (simp only: round_to_even_of_int)
  have dr: "double_round (real_of_int k) = real_of_int (round_to_even (real_of_int k / S)) * S"
    using False by (simp add: double_round_def L_def S_def Let_def)
  show ?thesis
    unfolding dr r by (simp add: e)
qed

lemma double_to_int_of_int:
  "- (2 ^ 31) \<le> k \<Longrightarrow> k < 2 ^ 31 \<Longrightarrow> double_to_int (real_of_int k) = Some k"
  by (simp add: double_to_int_def)

lemma double_to_int_truncates:
  assumes "double_to_int v = Some t"
  shows "\<bar>real_of_int t\<bar> \<le> \<bar>v\<bar> \<and> \<bar>v - real_of_int t\<bar> < 1 \<and> (0 \<le> v \<longrightarrow> 0 \<le> t) \<and> (v \<le> 0 \<longrightarrow> t \<le> 0)"
proof (cases "0 \<le> v")
  case True
  with assms have t: "t = \<lfloor>v\<rfloor>"
    by (simp add: double_to_int_def Let_def split: if_splits)
  have lo: "real_of_int t \<le> v" and hi: "v < real_of_int t + 1"
    unfolding t using floor_correct [of v] by simp_all
  have nn: "0 \<le> t"
    unfolding t using True by simp
  then have "0 \<le> real_of_int t" by simp
  with lo hi have "\<bar>real_of_int t\<bar> \<le> \<bar>v\<bar>" "\<bar>v - real_of_int t\<bar> < 1" "v \<le> 0 \<longrightarrow> t \<le> 0"
    by linarith+
  with nn show ?thesis by blast
next
  case False
  with assms have t: "t = \<lceil>v\<rceil>"
    by (simp add: double_to_int_def Let_def split: if_splits)
  have lo: "v \<le> real_of_int t" and hi: "real_of_int t - 1 < v"
    unfolding t using ceiling_correct [of v] by simp_all
  have np: "t \<le> 0"
    unfolding t using False by (simp add: ceiling_le_zero)
  then have "real_of_int t \<le> 0" by simp
  with lo hi have "\<bar>real_of_int t\<bar> \<le> \<bar>v\<bar>" "\<bar>v - real_of_int t\<bar> < 1"
    by linarith+
  with np False show ?thesis by simp
qed

lemma whole_bound:
  assumes "\<bar>real_of_int i\<bar> < 2 ^ 30"
  shows "\<bar>i\<bar> < 2 ^ 30"
proof -
  have "real_of_int \<bar>i\<bar> < real_of_int (2 ^ 30)"
    using assms by simp
  then show ?thesis
    by (simp only: of_int_less_iff)
qed

lemma whole_extreme:
  assumes "xs \<noteq> []" and "\<forall>v\<in>set xs. v \<in> \<int> \<and> \<bar>v\<bar> < 2 ^ 30"
  shows "\<exists>i j. Min (set xs) = real_of_int i \<and> Max (set xs) = real_of_int j \<and>
           \<bar>i\<bar> < 2 ^ 30 \<and> \<bar>j\<bar> < 2 ^ 30"
proof -
  have ne: "set xs \<noteq> {}" using assms(1) by simp
  have "Min (set xs) \<in> set xs" "Max (set xs) \<in> set xs"
    using Min_in [OF _ ne] Max_in [OF _ ne] by simp_all
  with assms(2) have "Min (set xs) \<in> \<int>" "\<bar>Min (set xs)\<bar> < 2 ^ 30"
    "Max (set xs) \<in> \<int>" "\<bar>Max (set xs)\<bar> < 2 ^ 30"
    by blast+
  then obtain i j where i: "Min (set xs) = real_of_int i" and j: "Max (set xs) = real_of_int j"
    and bi: "\<bar>real_of_int i\<bar> < 2 ^ 30" and bj: "\<bar>real_of_int j\<bar> < 2 ^ 30"
    by (auto elim!: Ints_cases)
  have "\<bar>i\<bar> < 2 ^ 30" "\<bar>j\<bar> < 2 ^ 30"
    using whole_bound [OF bi] whole_bound [OF bj] by simp_all
  with i j show ?thesis by blast
qed

lemma double_sub_whole:
  assumes "\<bar>i\<bar> < 2 ^ 30" and "\<bar>j\<bar> < (2 ^ 30 :: int)"
  shows "double_sub (real_of_int j) (real_of_int i) = Some (real_of_int (j - i))"
proof -
  have b: "\<bar>j - i\<bar> < 2 ^ 53"
    using assms by simp
  have d: "double_round (real_of_int j - real_of_int i) = real_of_int (j - i)"
    using double_round_of_int [OF b] by simp
  have "real_of_int \<bar>j - i\<bar> < real_of_int (2 ^ 1024)"
    using assms by (simp only: of_int_less_iff) simp
  then have "\<bar>real_of_int (j - i)\<bar> < 2 ^ 1024"
    by simp
  then show ?thesis
    unfolding double_sub_def d by (simp add: Let_def)
qed

lemma double_sub_bounded:
  assumes "\<bar>a\<bar> \<le> 2 ^ 1000" and "\<bar>b\<bar> \<le> 2 ^ 1000"
  shows "double_sub a b = Some (double_round (a - b))"
proof -
  have d: "\<bar>a - b\<bar> \<le> 2 * 2 ^ 1000"
    using assms by linarith
  have "\<bar>double_round (a - b)\<bar> \<le> \<bar>a - b\<bar> + \<bar>a - b\<bar> / 2 ^ 53"
    using double_round_error [of "a - b"] by linarith
  also have "\<dots> \<le> 2 * \<bar>a - b\<bar>"
    by (simp add: field_simps)
  also have "\<dots> \<le> 4 * 2 ^ 1000"
    using d by simp
  also have "\<dots> < 2 ^ 1024"
    by simp
  finally show ?thesis
    by (simp add: double_sub_def Let_def)
qed

lemma Rect_ctor_whole:
  assumes "\<bar>i\<bar> < 2 ^ 30" "\<bar>j\<bar> < 2 ^ 30" "\<bar>k\<bar> < 2 ^ 30" "\<bar>l\<bar> < (2 ^ 30 :: int)"
  shows "Rect_ctor double_to_int (real_of_int i) (real_of_int k)
           (real_of_int (j - i)) (real_of_int (l - k)) =
         Inr \<lparr>rect_x = i, rect_y = k, rect_width = j - i, rect_height = l - k\<rparr>"
proof -
  have r: "- (2 ^ 31) \<le> i" "i < 2 ^ 31" "- (2 ^ 31) \<le> k" "k < 2 ^ 31"
    "- (2 ^ 31) \<le> j - i" "j - i < 2 ^ 31" "- (2 ^ 31) \<le> l - k" "l - k < 2 ^ 31"
    using assms by simp_all
  have "double_to_int (real_of_int i) = Some i" "double_to_int (real_of_int k) = Some k"
    "double_to_int (real_of_int (j - i)) = Some (j - i)"
    "double_to_int (real_of_int (l - k)) = Some (l - k)"
    using r by (simp_all only: double_to_int_of_int)
  then show ?thesis
    by (simp add: Rect_ctor_def)
qed

text \<open>On whole coordinates nothing is rounded and nothing is cut off.\<close>

lemma bbox_whole:
  assumes "enclosingBoundingBox ps = Inr sb" and "whole_coordinates ps"
  shows "get_enclosing_bbox_double (landmark_row ps) = Inr sb"
    and "map_sum id real_Rect (get_enclosing_bbox_int (landmark_row ps)) = Inr sb"
proof -
  from assms(1) have ne: "ps \<noteq> []" by (auto simp: enclosingBoundingBox_def split: if_splits)
  have "map fst ps \<noteq> []" "\<forall>v\<in>set (map fst ps). v \<in> \<int> \<and> \<bar>v\<bar> < 2 ^ 30"
    "map snd ps \<noteq> []" "\<forall>v\<in>set (map snd ps). v \<in> \<int> \<and> \<bar>v\<bar> < 2 ^ 30"
    using ne assms(2) by (auto simp: whole_coordinates_def list_all_iff)
  then obtain i j k l where
    x: "Min (set (map fst ps)) = real_of_int i" "Max (set (map fst ps)) = real_of_int j"
      "\<bar>i\<bar> < 2 ^ 30" "\<bar>j\<bar> < 2 ^ 30" and
    y: "Min (set (map snd ps)) = real_of_int k" "Max (set (map snd ps)) = real_of_int l"
      "\<bar>k\<bar> < 2 ^ 30" "\<bar>l\<bar> < 2 ^ 30"
    using whole_extreme [of "map fst ps"] whole_extreme [of "map snd ps"] by blast
  have sb: "sb = \<lparr>rect_x = real_of_int i, rect_y = real_of_int k,
      rect_width = real_of_int (j - i), rect_height = real_of_int (l - k)\<rparr>"
    using assms(1) unfolding spec_box [OF ne] x(1,2) y(1,2) by simp
  have g: "get_enclosing_bbox conv (landmark_row ps) =
      Rect_ctor conv (real_of_int i) (real_of_int k) (real_of_int (j - i)) (real_of_int (l - k))"
    for conv :: "real \<Rightarrow> 'b option"
    unfolding get_enclosing_bbox_landmark_row [OF ne] x(1,2) y(1,2)
      double_sub_whole [OF x(3) x(4)] double_sub_whole [OF y(3) y(4)]
    by simp
  show "get_enclosing_bbox_double (landmark_row ps) = Inr sb"
    unfolding get_enclosing_bbox_double_def g Rect_ctor_Some sb by simp
  show "map_sum id real_Rect (get_enclosing_bbox_int (landmark_row ps)) = Inr sb"
    unfolding get_enclosing_bbox_int_def g Rect_ctor_whole [OF x(3) x(4) y(3) y(4)] sb
    by (simp add: real_Rect_def)
qed

lemma low_sides:
  assumes "enclosingBoundingBox ps = Inr sb"
  shows "list_all (\<lambda>p. rect_x sb \<le> fst p \<and> rect_y sb \<le> snd p) ps"
    and "list_ex (\<lambda>p. fst p = rect_x sb) ps" and "list_ex (\<lambda>p. snd p = rect_y sb) ps"
  using spec_box_encloses [OF assms] spec_box_tight [OF assms]
  by (simp_all add: encloses_def tight_def list_all_iff)

text \<open>Differences that are rounded, and differences that are not.\<close>

lemma double_round_example:
  "double_round (11480660612585881 / 35184372088832) = 1435082576573235 / 4398046511104"
  by (simp add: double_round_def binary_exponent_def round_to_even_def compute_bitlen)

lemma double_round_examples:
  "double_round 1 = 1" "double_round 3 = 3" "double_round 4 = 4" "double_round (5 / 4) = 5 / 4"
  "double_round (6241707608558797 / 2 ^ 45) = 6241707608558797 / 2 ^ 45"
  "double_round (8861184110572339 / 2 ^ 44) = 8861184110572339 / 2 ^ 44"
  by (simp_all add: double_round_def binary_exponent_def round_to_even_def compute_bitlen)

lemma rounding_example:
  "get_enclosing_bbox_double
     (landmark_row [(6241707608558797 / 2 ^ 45, 0), (8861184110572339 / 2 ^ 44, 1)]) =
   Inr \<lparr>rect_x = 6241707608558797 / 2 ^ 45, rect_y = 0,
        rect_width = 1435082576573235 / 2 ^ 42, rect_height = 1\<rparr>"
  by (simp add: get_enclosing_bbox_double_def get_enclosing_bbox_def landmark_row_def cols_def
      colRange_def minMaxLoc_def double_sub_def double_round_example double_round_examples
      Rect_ctor_def)

lemma rounding_example_excluded:
  "\<not> encloses \<lparr>rect_x = 6241707608558797 / 2 ^ 45, rect_y = 0,
        rect_width = 1435082576573235 / 2 ^ 42, rect_height = 1\<rparr>
     [(6241707608558797 / 2 ^ 45, 0), (8861184110572339 / 2 ^ 44, 1)]"
  by (simp add: encloses_def)

lemma fractional_example:
  "get_enclosing_bbox_int (landmark_row [(1/2, 1/2), (7/4, 7/4)]) =
     Inr \<lparr>rect_x = 0, rect_y = 0, rect_width = 1, rect_height = 1\<rparr>"
  by (simp add: get_enclosing_bbox_int_def get_enclosing_bbox_def landmark_row_def cols_def
      colRange_def minMaxLoc_def double_sub_def double_round_examples Rect_ctor_def
      double_to_int_def)

lemma upper_sides_within_rounding:
  assumes "enclosingBoundingBox ps = Inr sb" and "get_enclosing_bbox_double (landmark_row ps) = Inr b"
  shows "list_all (\<lambda>p. fst p \<le> rect_x b + rect_width b + rect_width sb / 2 ^ 53 \<and>
                        snd p \<le> rect_y b + rect_height b + rect_height sb / 2 ^ 53) ps"
proof -
  have b: "rect_x b = rect_x sb" "rect_y b = rect_y sb"
    "rect_width b = double_round (rect_width sb)" "rect_height b = double_round (rect_height sb)"
    using assms(2) unfolding bbox_double_rounds_spec [OF assms(1)]
    by (auto split: if_splits)
  have enc: "encloses sb ps"
    by (rule spec_box_encloses [OF assms(1)])
  have nn: "0 \<le> rect_width sb" "0 \<le> rect_height sb"
  proof -
    from assms(1) have ne: "ps \<noteq> []" by (auto simp: enclosingBoundingBox_def split: if_splits)
    then obtain p where "p \<in> set ps" by (cases ps) auto
    with enc show "0 \<le> rect_width sb" "0 \<le> rect_height sb"
      unfolding encloses_def list_all_iff by force+
  qed
  have ex: "rect_width sb - rect_width sb / 2 ^ 53 \<le> double_round (rect_width sb)"
  proof -
    have "\<bar>double_round (rect_width sb) - rect_width sb\<bar> \<le> \<bar>rect_width sb\<bar> / 2 ^ 53"
      by (rule double_round_error)
    with nn(1) show ?thesis by (simp add: abs_if split: if_splits)
  qed
  have ey: "rect_height sb - rect_height sb / 2 ^ 53 \<le> double_round (rect_height sb)"
  proof -
    have "\<bar>double_round (rect_height sb) - rect_height sb\<bar> \<le> \<bar>rect_height sb\<bar> / 2 ^ 53"
      by (rule double_round_error)
    with nn(2) show ?thesis by (simp add: abs_if split: if_splits)
  qed
  show ?thesis
    unfolding list_all_iff
  proof
    fix p assume "p \<in> set ps"
    with enc have "fst p \<le> rect_x sb + rect_width sb" "snd p \<le> rect_y sb + rect_height sb"
      unfolding encloses_def list_all_iff by auto
    with ex ey show "fst p \<le> rect_x b + rect_width b + rect_width sb / 2 ^ 53 \<and>
        snd p \<le> rect_y b + rect_height b + rect_height sb / 2 ^ 53"
      unfolding b by linarith
  qed
qed

section \<open>Facts about the frame loop\<close>

lemma loop_body_no_face:
  assumes "\<not> have_face s" and "detectMultiScale c (image_mat s) = []"
  shows "loop_body c key s =
         (Continue, s\<lparr>trace := trace s @ [DetectMultiScale (image_mat s), Imshow (image_mat s), WaitKey]\<rparr>)"
  using assms by (simp add: loop_body_def emit_def)

lemma loop_body_face:
  assumes "\<not> have_face s" and "detectMultiScale c (image_mat s) = face # others"
  shows "loop_body c key s =
         (break_on_key key,
          s\<lparr>current_landmarks := model_detect c (rectangle c (image_mat s) face) face,
            image_mat := draw_landmarks c (rectangle c (image_mat s) face)
                           (model_detect c (rectangle c (image_mat s) face) face),
            trace := trace s @
              [DetectMultiScale (image_mat s),
               Rectangle (image_mat s) face,
               ModelDetect (rectangle c (image_mat s) face) face,
               DrawLandmarks (rectangle c (image_mat s) face)
                 (model_detect c (rectangle c (image_mat s) face) face),
               CoutTimings,
               Imshow (draw_landmarks c (rectangle c (image_mat s) face)
                         (model_detect c (rectangle c (image_mat s) face) face)),
               WaitKey]\<rparr>)"
  using assms by (simp add: loop_body_def emit_def Let_def)

lemma loop_body_tracking:
  assumes "have_face s"
  shows "loop_body c key s = (break_on_key key, s\<lparr>trace := trace s @ [Imshow (image_mat s), WaitKey]\<rparr>)"
  using assms by (simp add: loop_body_def emit_def)

lemma loop_body_have_face: "have_face (snd (loop_body c key s)) = have_face s"
proof (cases "have_face s")
  case True
  then show ?thesis by (simp add: loop_body_tracking)
next
  case False
  then show ?thesis
    by (cases "detectMultiScale c (image_mat s)") (simp_all add: loop_body_no_face loop_body_face)
qed

lemma run_loop_have_face: "have_face (run_loop c inputs s) = have_face s"
proof (induction inputs arbitrary: s)
  case Nil
  show ?case by simp
next
  case (Cons a inputs)
  obtain frame key where a: "a = (frame, key)" by (cases a)
  obtain ctl s' where b: "loop_body c key (s\<lparr>image_mat := frame\<rparr>) = (ctl, s')"
    by (cases "loop_body c key (s\<lparr>image_mat := frame\<rparr>)")
  have "have_face s' = have_face s"
    using loop_body_have_face [of c key "s\<lparr>image_mat := frame\<rparr>"] b by simp
  then show ?case
    using Cons.IH [of s'] by (cases ctl) (simp_all add: a b)
qed

lemma detector_inputs_append:
  "detector_inputs (es @ fs) = detector_inputs es @ detector_inputs fs"
  by (induction es rule: detector_inputs.induct) simp_all

lemma model_inputs_append:
  "model_inputs (es @ fs) = model_inputs es @ model_inputs fs"
  by (induction es rule: model_inputs.induct) simp_all

lemma shown_append: "shown (es @ fs) = shown es @ shown fs"
  by (induction es rule: shown.induct) simp_all

text \<open>In a state without a face every iteration calls the detector once and the display once.\<close>

lemma loop_body_counts:
  assumes "\<not> have_face s"
  shows "length (detector_inputs (trace (snd (loop_body c key s)))) =
           Suc (length (detector_inputs (trace s))) \<and>
         length (shown (trace (snd (loop_body c key s)))) = Suc (length (shown (trace s)))"
  using assms
  by (cases "detectMultiScale c (image_mat s)")
    (simp_all add: loop_body_no_face loop_body_face detector_inputs_append shown_append)

lemma run_loop_counts:
  assumes "\<not> have_face s"
    and "length (detector_inputs (trace s)) = length (shown (trace s))"
  shows "length (detector_inputs (trace (run_loop c inputs s))) =
         length (shown (trace (run_loop c inputs s)))"
  using assms
proof (induction inputs arbitrary: s)
  case Nil
  then show ?case by simp
next
  case (Cons a inputs)
  obtain frame key where a: "a = (frame, key)" by (cases a)
  let ?s = "s\<lparr>image_mat := frame\<rparr>"
  obtain ctl s' where b: "loop_body c key ?s = (ctl, s')"
    by (cases "loop_body c key ?s")
  have nf: "\<not> have_face ?s" using Cons.prems(1) by simp
  have h: "\<not> have_face s'"
    using loop_body_have_face [of c key ?s] b nf by simp
  have k: "length (detector_inputs (trace s')) = length (shown (trace s'))"
    using loop_body_counts [OF nf, of c key] b Cons.prems(2) by simp
  show ?case
  proof (cases "mat_empty c frame")
    case True
    then show ?thesis using Cons.prems(2) by (simp add: a)
  next
    case False
    then show ?thesis
      using Cons.IH [OF h k] k by (cases ctl) (simp_all add: a b)
  qed
qed

lemma run_loop_no_faces:
  assumes "\<not> have_face s" and "\<forall>input\<in>set inputs. detectMultiScale c (fst input) = []"
  shows "trace (run_loop c inputs s) =
           trace s @ concat (map raw_frame_events (takeWhile (\<lambda>input. \<not> mat_empty c (fst input)) inputs)) \<and>
         current_landmarks (run_loop c inputs s) = current_landmarks s"
  using assms
proof (induction inputs arbitrary: s)
  case Nil
  then show ?case by simp
next
  case (Cons a inputs)
  obtain frame key where a: "a = (frame, key)" by (cases a)
  let ?s = "s\<lparr>image_mat := frame\<rparr>"
  let ?s' = "?s\<lparr>trace := trace ?s @ [DetectMultiScale (image_mat ?s), Imshow (image_mat ?s), WaitKey]\<rparr>"
  have nf: "\<not> have_face ?s" using Cons.prems(1) by simp
  have d: "detectMultiScale c (image_mat ?s) = []" using Cons.prems(2) by (simp add: a)
  have b: "loop_body c key ?s = (Continue, ?s')"
    by (rule loop_body_no_face [OF nf d])
  have nf': "\<not> have_face ?s'" using Cons.prems(1) by simp
  have rest: "\<forall>input\<in>set inputs. detectMultiScale c (fst input) = []"
    using Cons.prems(2) by simp
  show ?case
  proof (cases "mat_empty c frame")
    case True
    then show ?thesis by (simp add: a)
  next
    case False
    then show ?thesis
      using Cons.IH [OF nf' rest] by (simp add: a b raw_frame_events_def)
  qed
qed

lemma raw_frames_quiet:
  "model_inputs (concat (map raw_frame_events inputs)) = [] \<and>
   filter drawing (concat (map raw_frame_events inputs)) = [] \<and>
   shown (concat (map raw_frame_events inputs)) = map fst inputs"
  by (induction inputs) (simp_all add: raw_frame_events_def)

section \<open>The enclosing bounding box\<close>

text \<open>
  The default instantiation on the two points \<open>(0.5, 0.5)\<close> and \<open>(1.75, 1.75)\<close>: the
  corner \<open>0.5\<close> becomes \<open>0\<close> and the extent \<open>1.25\<close> becomes \<open>1\<close>, so the box ends at
  \<open>1\<close>, short of the second point, and no point lies on any of its sides.
\<close>

theorem bbox_int_fractional_counterexample:
  "get_enclosing_bbox_int (landmark_row [(1/2, 1/2), (7/4, 7/4)]) =
     Inr \<lparr>rect_x = 0, rect_y = 0, rect_width = 1, rect_height = 1\<rparr> \<and>
   enclosingBoundingBox [(1/2, 1/2), (7/4, 7/4)] =
     Inr \<lparr>rect_x = 1/2, rect_y = 1/2, rect_width = 5/4, rect_height = 5/4\<rparr> \<and>
   \<not> encloses (real_Rect \<lparr>rect_x = 0, rect_y = 0, rect_width = 1, rect_height = 1\<rparr>)
        [(1/2, 1/2), (7/4, 7/4)] \<and>
   \<not> tight (real_Rect \<lparr>rect_x = 0, rect_y = 0, rect_width = 1, rect_height = 1\<rparr>)
        [(1/2, 1/2), (7/4, 7/4)]"
  by (simp add: fractional_example enclosingBoundingBox_def encloses_def tight_def real_Rect_def
      Let_def)

text \<open>
  C1, as the code has it. For every non-empty landmark set the instantiation \<open>T = double\<close>
  of \<^verbatim>\<open>get_enclosing_bbox\<close> returns, unless a difference is beyond the range of
  \<^verbatim>\<open>double\<close>, the box \<open>{x: minX, y: minY, width: maxX - minX, height: maxY - minY}\<close> with
  each of the two differences rounded to \<^verbatim>\<open>double\<close>. Every point satisfies \<open>x \<le> p.x\<close> and
  \<open>y \<le> p.y\<close>, with a point on each of these two sides. When neither difference is changed
  by the rounding, every point also satisfies \<open>p.x \<le> x + width\<close> and \<open>p.y \<le> y + height\<close>,
  with a point on each of those sides. A box is returned whenever all coordinates have
  magnitude at most \<open>2 ^ 1000\<close>. When all coordinates are whole numbers of magnitude below
  \<open>2 ^ 30\<close>, nothing is rounded, and the default instantiation \<open>T = int\<close> returns the
  same box.
\<close>

theorem get_enclosing_bbox_encloses:
  assumes "landmarks \<noteq> []"
  shows "\<exists>sb. enclosingBoundingBox landmarks = Inr sb \<and>
     (case get_enclosing_bbox_double (landmark_row landmarks) of
        Inl u \<Rightarrow> u = NotFinite
      | Inr b \<Rightarrow>
          rect_x b = rect_x sb \<and> rect_y b = rect_y sb \<and>
          rect_width b = double_round (rect_width sb) \<and>
          rect_height b = double_round (rect_height sb) \<and>
          list_all (\<lambda>p. rect_x b \<le> fst p \<and> rect_y b \<le> snd p) landmarks \<and>
          list_ex (\<lambda>p. fst p = rect_x b) landmarks \<and>
          list_ex (\<lambda>p. snd p = rect_y b) landmarks \<and>
          (rect_width b = rect_width sb \<and> rect_height b = rect_height sb \<longrightarrow>
             encloses b landmarks \<and> tight b landmarks)) \<and>
     (list_all (\<lambda>p. \<bar>fst p\<bar> \<le> 2 ^ 1000 \<and> \<bar>snd p\<bar> \<le> 2 ^ 1000) landmarks \<longrightarrow>
        (\<exists>b. get_enclosing_bbox_double (landmark_row landmarks) = Inr b)) \<and>
     (whole_coordinates landmarks \<longrightarrow>
        get_enclosing_bbox_double (landmark_row landmarks) = Inr sb \<and>
        map_sum id real_Rect (get_enclosing_bbox_int (landmark_row landmarks)) = Inr sb)"
proof -
  obtain sb where s: "enclosingBoundingBox landmarks = Inr sb"
    using spec_box [OF assms] by blast
  let ?b = "\<lparr>rect_x = rect_x sb, rect_y = rect_y sb,
             rect_width = double_round (rect_width sb),
             rect_height = double_round (rect_height sb)\<rparr>"
  have exact: "encloses ?b landmarks \<and> tight ?b landmarks"
    if "double_round (rect_width sb) = rect_width sb"
      and "double_round (rect_height sb) = rect_height sb"
  proof -
    have "?b = sb" using that by simp
    then show ?thesis
      using spec_box_encloses [OF s] spec_box_tight [OF s] by simp
  qed
  have first: "case get_enclosing_bbox_double (landmark_row landmarks) of
        Inl u \<Rightarrow> u = NotFinite
      | Inr b \<Rightarrow>
          rect_x b = rect_x sb \<and> rect_y b = rect_y sb \<and>
          rect_width b = double_round (rect_width sb) \<and>
          rect_height b = double_round (rect_height sb) \<and>
          list_all (\<lambda>p. rect_x b \<le> fst p \<and> rect_y b \<le> snd p) landmarks \<and>
          list_ex (\<lambda>p. fst p = rect_x b) landmarks \<and>
          list_ex (\<lambda>p. snd p = rect_y b) landmarks \<and>
          (rect_width b = rect_width sb \<and> rect_height b = rect_height sb \<longrightarrow>
             encloses b landmarks \<and> tight b landmarks)"
    unfolding bbox_double_rounds_spec [OF s]
    using low_sides [OF s] exact by simp
  have second: "\<exists>b. get_enclosing_bbox_double (landmark_row landmarks) = Inr b"
    if b: "list_all (\<lambda>p. \<bar>fst p\<bar> \<le> 2 ^ 1000 \<and> \<bar>snd p\<bar> \<le> 2 ^ 1000) landmarks"
  proof -
    have nx: "set (map fst landmarks) \<noteq> {}" and ny: "set (map snd landmarks) \<noteq> {}"
      using assms by simp_all
    have "Min (set (map fst landmarks)) \<in> set (map fst landmarks)"
      "Max (set (map fst landmarks)) \<in> set (map fst landmarks)"
      "Min (set (map snd landmarks)) \<in> set (map snd landmarks)"
      "Max (set (map snd landmarks)) \<in> set (map snd landmarks)"
      using Min_in [OF _ nx] Max_in [OF _ nx] Min_in [OF _ ny] Max_in [OF _ ny] by blast+
    then have m: "\<bar>Min (set (map fst landmarks))\<bar> \<le> 2 ^ 1000"
      "\<bar>Max (set (map fst landmarks))\<bar> \<le> 2 ^ 1000"
      "\<bar>Min (set (map snd landmarks))\<bar> \<le> 2 ^ 1000"
      "\<bar>Max (set (map snd landmarks))\<bar> \<le> 2 ^ 1000"
      using b unfolding list_all_iff by auto
    show ?thesis
      unfolding get_enclosing_bbox_double_def get_enclosing_bbox_landmark_row [OF assms]
        double_sub_bounded [OF m(2) m(1)] double_sub_bounded [OF m(4) m(3)]
      by (simp add: Rect_ctor_Some del: set_map)
  qed
  show ?thesis
    using s first second bbox_whole [OF s] by blast
qed

theorem get_enclosing_bbox_encloses_witness:
  "get_enclosing_bbox_double (landmark_row [(3, 7), (5, 2), (4, 9)]) =
     Inr \<lparr>rect_x = 3, rect_y = 2, rect_width = 2, rect_height = 7\<rparr> \<and>
   encloses \<lparr>rect_x = 3, rect_y = 2, rect_width = 2, rect_height = 7\<rparr> [(3, 7), (5, 2), (4, 9)] \<and>
   tight \<lparr>rect_x = 3, rect_y = 2, rect_width = 2, rect_height = 7\<rparr> [(3, 7), (5, 2), (4, 9)] \<and>
   map_sum id real_Rect (get_enclosing_bbox_int (landmark_row [(3, 7), (5, 2), (4, 9)])) =
     Inr \<lparr>rect_x = 3, rect_y = 2, rect_width = 2, rect_height = 7\<rparr>"
proof -
  let ?ps = "[(3, 7), (5, 2), (4, 9)] :: LandmarkSet"
  let ?sb = "\<lparr>rect_x = 3, rect_y = 2, rect_width = 2, rect_height = 7\<rparr> :: real Rect"
  have ne: "?ps \<noteq> []" by simp
  have w: "whole_coordinates ?ps"
    by (simp add: whole_coordinates_def)
  have e: "enclosingBoundingBox ?ps = Inr ?sb"
    by (simp add: enclosingBoundingBox_def Let_def)
  from get_enclosing_bbox_encloses [OF ne] e w
  have d: "get_enclosing_bbox_double (landmark_row ?ps) = Inr ?sb"
    and i: "map_sum id real_Rect (get_enclosing_bbox_int (landmark_row ?ps)) = Inr ?sb"
    and c: "case get_enclosing_bbox_double (landmark_row ?ps) of
        Inl u \<Rightarrow> u = NotFinite
      | Inr b \<Rightarrow>
          rect_x b = rect_x ?sb \<and> rect_y b = rect_y ?sb \<and>
          rect_width b = double_round (rect_width ?sb) \<and>
          rect_height b = double_round (rect_height ?sb) \<and>
          list_all (\<lambda>p. rect_x b \<le> fst p \<and> rect_y b \<le> snd p) ?ps \<and>
          list_ex (\<lambda>p. fst p = rect_x b) ?ps \<and>
          list_ex (\<lambda>p. snd p = rect_y b) ?ps \<and>
          (rect_width b = rect_width ?sb \<and> rect_height b = rect_height ?sb \<longrightarrow>
             encloses b ?ps \<and> tight b ?ps)"
    by auto
  from c have "encloses ?sb ?ps \<and> tight ?sb ?ps"
    unfolding d by simp
  with d i show ?thesis by blast
qed

text \<open>
  C7. For every landmark set \<open>S\<close> whose enclosing box has non-zero width and height,
  \<open>scaleFactor(S, S)\<close> is \<open>(1.0, 1.0)\<close>, where \<open>scaleFactor(subject, reference)\<close> is
  \<open>(subject box width / reference box width, subject box height / reference box height)\<close>.
\<close>

theorem scaleFactor_self:
  assumes "enclosingBoundingBox S = Inr b" and "rect_width b \<noteq> 0" and "rect_height b \<noteq> 0"
  shows "scaleFactor S S = Inr (1, 1)"
  using assms by (simp add: scaleFactor_def)

theorem scaleFactor_self_witness:
  "enclosingBoundingBox [(3, 7), (5, 2), (4, 9)] =
     Inr \<lparr>rect_x = 3, rect_y = 2, rect_width = 2, rect_height = 7\<rparr> \<and>
   scaleFactor [(3, 7), (5, 2), (4, 9)] [(3, 7), (5, 2), (4, 9)] = Inr (1, 1)"
proof -
  have e: "enclosingBoundingBox [(3, 7), (5, 2), (4, 9)] =
      Inr \<lparr>rect_x = 3, rect_y = 2, rect_width = 2, rect_height = 7\<rparr>"
    by (simp add: enclosingBoundingBox_def Let_def)
  from scaleFactor_self [OF e] e show ?thesis
    by simp
qed

text \<open>
  The instantiation \<open>T = double\<close> on \<open>x\<close> coordinates \<open>177.4\<close> and \<open>503.7\<close> (the two
  \<^verbatim>\<open>double\<close> values nearest to them): the exact difference needs 54 bits and is rounded
  down by \<open>2 ^ -45\<close>, so \<open>x + width\<close> is less than the larger coordinate and the box leaves
  that point out.
\<close>

theorem bbox_double_rounding_counterexample:
  "double_round (6241707608558797 / 2 ^ 45) = 6241707608558797 / 2 ^ 45 \<and>
   double_round (8861184110572339 / 2 ^ 44) = 8861184110572339 / 2 ^ 44 \<and>
   get_enclosing_bbox_double
     (landmark_row [(6241707608558797 / 2 ^ 45, 0), (8861184110572339 / 2 ^ 44, 1)]) =
   Inr \<lparr>rect_x = 6241707608558797 / 2 ^ 45, rect_y = 0,
        rect_width = 1435082576573235 / 2 ^ 42, rect_height = 1\<rparr> \<and>
   (6241707608558797 / 2 ^ 45 + 1435082576573235 / 2 ^ 42 :: real) < 8861184110572339 / 2 ^ 44 \<and>
   \<not> encloses \<lparr>rect_x = 6241707608558797 / 2 ^ 45, rect_y = 0,
        rect_width = 1435082576573235 / 2 ^ 42, rect_height = 1\<rparr>
     [(6241707608558797 / 2 ^ 45, 0), (8861184110572339 / 2 ^ 44, 1)]"
  using rounding_example rounding_example_excluded double_round_examples(5,6)
  by simp

text \<open>
  C9, as the code has it. The default instantiation \<open>T = int\<close> of \<^verbatim>\<open>get_enclosing_bbox\<close>
  returns the four numbers of the floating-point box, each converted to \<^verbatim>\<open>int\<close>; the
  conversion truncates toward zero (the result lies between zero and the argument, less
  than one away from it); there is a non-empty landmark set with fractional coordinates
  whose integer box leaves out one of its points. Containment is not exact for the
  instantiation \<open>T = double\<close> either: there is a non-empty set whose floating-point box
  leaves out one of its points. In every floating-point box the lower sides are at or
  below every point, and the upper sides fall short of a point by at most the exact extent
  divided by \<open>2 ^ 53\<close>.
\<close>

theorem default_instantiation_truncates:
  "(\<forall>landmarks b. get_enclosing_bbox_double landmarks = Inr b \<longrightarrow>
      get_enclosing_bbox_int landmarks =
        Rect_ctor double_to_int (rect_x b) (rect_y b) (rect_width b) (rect_height b)) \<and>
   (\<forall>v t. double_to_int v = Some t \<longrightarrow>
      \<bar>real_of_int t\<bar> \<le> \<bar>v\<bar> \<and> \<bar>v - real_of_int t\<bar> < 1 \<and> (0 \<le> v \<longrightarrow> 0 \<le> t) \<and> (v \<le> 0 \<longrightarrow> t \<le> 0)) \<and>
   (\<exists>landmarks b. landmarks \<noteq> [] \<and> get_enclosing_bbox_int (landmark_row landmarks) = Inr b \<and>
      \<not> encloses (real_Rect b) landmarks) \<and>
   (\<exists>landmarks b. landmarks \<noteq> [] \<and> get_enclosing_bbox_double (landmark_row landmarks) = Inr b \<and>
      \<not> encloses b landmarks) \<and>
   (\<forall>landmarks sb b. enclosingBoundingBox landmarks = Inr sb \<longrightarrow>
      get_enclosing_bbox_double (landmark_row landmarks) = Inr b \<longrightarrow>
      list_all (\<lambda>p. rect_x b \<le> fst p \<and> fst p \<le> rect_x b + rect_width b + rect_width sb / 2 ^ 53 \<and>
                     rect_y b \<le> snd p \<and> snd p \<le> rect_y b + rect_height b + rect_height sb / 2 ^ 53)
        landmarks)"
proof (intro conjI allI impI)
  fix landmarks :: Mat and b
  assume "get_enclosing_bbox_double landmarks = Inr b"
  then show "get_enclosing_bbox_int landmarks =
      Rect_ctor double_to_int (rect_x b) (rect_y b) (rect_width b) (rect_height b)"
    unfolding get_enclosing_bbox_int_def by (rule get_enclosing_bbox_conv)
next
  fix v t
  assume "double_to_int v = Some t"
  from double_to_int_truncates [OF this]
  show "\<bar>real_of_int t\<bar> \<le> \<bar>v\<bar>" "\<bar>v - real_of_int t\<bar> < 1" "0 \<le> v \<Longrightarrow> 0 \<le> t" "v \<le> 0 \<Longrightarrow> t \<le> 0"
    by blast+
next
  have "\<not> encloses (real_Rect \<lparr>rect_x = 0, rect_y = 0, rect_width = 1, rect_height = 1\<rparr>)
      [(1/2, 1/2), (7/4, 7/4)]"
    by (simp add: encloses_def real_Rect_def)
  with fractional_example show "\<exists>landmarks b. landmarks \<noteq> [] \<and>
      get_enclosing_bbox_int (landmark_row landmarks) = Inr b \<and> \<not> encloses (real_Rect b) landmarks"
    by blast
next
  from rounding_example rounding_example_excluded
  show "\<exists>landmarks b. landmarks \<noteq> [] \<and>
      get_enclosing_bbox_double (landmark_row landmarks) = Inr b \<and> \<not> encloses b landmarks"
    by blast
next
  fix landmarks :: LandmarkSet and sb b
  assume s: "enclosingBoundingBox landmarks = Inr sb"
    and d: "get_enclosing_bbox_double (landmark_row landmarks) = Inr b"
  have b: "rect_x b = rect_x sb" "rect_y b = rect_y sb"
    using d unfolding bbox_double_rounds_spec [OF s] by (auto split: if_splits)
  show "list_all (\<lambda>p. rect_x b \<le> fst p \<and> fst p \<le> rect_x b + rect_width b + rect_width sb / 2 ^ 53 \<and>
                     rect_y b \<le> snd p \<and> snd p \<le> rect_y b + rect_height b + rect_height sb / 2 ^ 53)
        landmarks"
    using upper_sides_within_rounding [OF s d] low_sides(1) [OF s]
    unfolding list_all_iff b by blast
qed

theorem default_instantiation_truncates_witness:
  "get_enclosing_bbox_double (landmark_row [(-3/2, 1/2), (5/2, 7/2)]) =
     Inr \<lparr>rect_x = -3/2, rect_y = 1/2, rect_width = 4, rect_height = 3\<rparr> \<and>
   get_enclosing_bbox_int (landmark_row [(-3/2, 1/2), (5/2, 7/2)]) =
     Inr \<lparr>rect_x = -1, rect_y = 0, rect_width = 4, rect_height = 3\<rparr> \<and>
   \<not> encloses (real_Rect \<lparr>rect_x = -1, rect_y = 0, rect_width = 4, rect_height = 3\<rparr>)
        [(-3/2, 1/2), (5/2, 7/2)]"
proof -
  have d: "get_enclosing_bbox_double (landmark_row [(-3/2, 1/2), (5/2, 7/2)]) =
      Inr \<lparr>rect_x = -3/2, rect_y = 1/2, rect_width = 4, rect_height = 3\<rparr>"
    by (simp add: get_enclosing_bbox_double_def get_enclosing_bbox_def landmark_row_def cols_def
        colRange_def minMaxLoc_def double_sub_def double_round_examples Rect_ctor_def)
  have c: "Rect_ctor double_to_int (-3/2) (1/2) 4 3 =
      Inr \<lparr>rect_x = -1, rect_y = 0, rect_width = 4, rect_height = 3\<rparr>"
    by (simp add: Rect_ctor_def double_to_int_def)
  have n: "\<not> encloses (real_Rect \<lparr>rect_x = -1, rect_y = 0, rect_width = 4, rect_height = 3\<rparr>)
      [(-3/2, 1/2), (5/2, 7/2)]"
    by (simp add: encloses_def real_Rect_def)
  from default_instantiation_truncates [THEN conjunct1, rule_format, OF d] c d n
  show ?thesis by simp
qed

section \<open>The tracking flag\<close>

text \<open>
  C2. After every frame of every frame sequence (after the first \<open>n\<close> frames, for every
  \<open>n\<close>) \<^verbatim>\<open>have_face\<close> is false, also after a frame on which a face was found and the
  landmark model ran; so every iteration takes the branch that runs the face detector, and
  the detector has run once for every frame displayed. The branch for \<^verbatim>\<open>have_face\<close> is
  never taken.
\<close>

theorem have_face_stays_false:
  "\<not> have_face (run_loop c (take n inputs) (init_state img0)) \<and>
   length (detector_inputs (trace (run_loop c (take n inputs) (init_state img0)))) =
   length (shown (trace (run_loop c (take n inputs) (init_state img0))))"
proof
  show "\<not> have_face (run_loop c (take n inputs) (init_state img0))"
    by (simp add: run_loop_have_face init_state_def)
  show "length (detector_inputs (trace (run_loop c (take n inputs) (init_state img0)))) =
      length (shown (trace (run_loop c (take n inputs) (init_state img0))))"
    by (rule run_loop_counts) (simp_all add: init_state_def)
qed

theorem have_face_stays_false_witness:
  "\<not> have_face (run_loop studio (take 2 [((1, []), -1), ((0, []), -1), ((2, []), 27)]) (init_state (0, []))) \<and>
   detector_inputs (trace (run_loop studio (take 2 [((1, []), -1), ((0, []), -1), ((2, []), 27)]) (init_state (0, [])))) =
     [(1, []), (0, [])] \<and>
   length (shown (trace (run_loop studio (take 2 [((1, []), -1), ((0, []), -1), ((2, []), 27)]) (init_state (0, []))))) = 2"
proof -
  have d: "detector_inputs (trace (run_loop studio (take 2 [((1, []), -1), ((0, []), -1), ((2, []), 27)]) (init_state (0, [])))) =
     [(1, []), (0, [])]"
    by (simp add: studio_def init_state_def loop_body_def emit_def break_on_key_def Let_def)
  from have_face_stays_false [of studio 2 "[((1, []), -1), ((0, []), -1), ((2, []), 27)]" "(0, [])"] d
  show ?thesis by simp
qed

text \<open>
  C4. Starting without a face, on every frame sequence on which the detector finds no
  candidate in any frame: after every frame (after the first \<open>n\<close>, for every \<open>n\<close>)
  \<^verbatim>\<open>have_face\<close> is false and \<^verbatim>\<open>current_landmarks\<close> is still empty; each frame up to the
  first empty one adds the detector call, the display of the frame as captured and
  \<^verbatim>\<open>waitKey\<close> to the trace and nothing else, so the landmark model is never run and nothing
  is drawn.
\<close>

theorem no_face_stays_no_track:
  assumes "\<forall>input\<in>set inputs. detectMultiScale c (fst input) = []"
  shows "\<not> have_face (run_loop c (take n inputs) (init_state img0)) \<and>
         current_landmarks (run_loop c (take n inputs) (init_state img0)) = [] \<and>
         trace (run_loop c (take n inputs) (init_state img0)) =
           concat (map raw_frame_events
             (takeWhile (\<lambda>input. \<not> mat_empty c (fst input)) (take n inputs))) \<and>
         shown (trace (run_loop c (take n inputs) (init_state img0))) =
           map fst (takeWhile (\<lambda>input. \<not> mat_empty c (fst input)) (take n inputs)) \<and>
         model_inputs (trace (run_loop c (take n inputs) (init_state img0))) = [] \<and>
         filter drawing (trace (run_loop c (take n inputs) (init_state img0))) = []"
proof -
  have nf: "\<not> have_face (init_state img0 :: ('a, 'b) track_state)"
    by (simp add: init_state_def)
  have sub: "\<forall>input\<in>set (take n inputs). detectMultiScale c (fst input) = []"
    using assms by (meson in_set_takeD)
  have t: "trace (run_loop c (take n inputs) (init_state img0)) =
      concat (map raw_frame_events (takeWhile (\<lambda>input. \<not> mat_empty c (fst input)) (take n inputs)))"
    and l: "current_landmarks (run_loop c (take n inputs) (init_state img0)) = []"
    using run_loop_no_faces [OF nf sub] by (simp_all add: init_state_def)
  show ?thesis
    unfolding t using l by (simp add: run_loop_have_face init_state_def raw_frames_quiet)
qed

theorem no_face_stays_no_track_witness:
  "detectMultiScale studio (fst ((0, []), 27)) = [] \<and>
   detectMultiScale studio (fst ((0, [Box face_a]), - 1)) = [] \<and>
   trace (run_loop studio (take 2 [((0, []), 27), ((0, [Box face_a]), - 1)]) (init_state (5, []))) =
     [DetectMultiScale (0, []), Imshow (0, []), WaitKey,
      DetectMultiScale (0, [Box face_a]), Imshow (0, [Box face_a]), WaitKey] \<and>
   \<not> have_face (run_loop studio (take 2 [((0, []), 27), ((0, [Box face_a]), - 1)]) (init_state (5, [])))"
proof -
  have h: "\<forall>input\<in>set [((0, []), 27), ((0, [Box face_a]), - 1)]. detectMultiScale studio (fst input) = []"
    by (simp add: studio_def)
  from no_face_stays_no_track [OF h, of 2 "(5, [])"] h show ?thesis
    by (simp add: studio_def raw_frame_events_def)
qed

section \<open>Cold start\<close>

text \<open>
  C5. Without a face, when the detector returns one or more candidates, the first one in
  the detector's order is taken: the landmark model is run once, with that box,
  \<^verbatim>\<open>current_landmarks\<close> is set to what it returns, and that result is drawn and displayed;
  \<^verbatim>\<open>have_face\<close> stays false.
\<close>

theorem cold_start_takes_first_candidate:
  assumes "\<not> have_face s" and "detectMultiScale c (image_mat s) = face # others"
  shows "model_inputs (trace (snd (loop_body c key s))) =
           model_inputs (trace s) @ [(rectangle c (image_mat s) face, face)] \<and>
         current_landmarks (snd (loop_body c key s)) =
           model_detect c (rectangle c (image_mat s) face) face \<and>
         trace (snd (loop_body c key s)) = trace s @
           [DetectMultiScale (image_mat s),
            Rectangle (image_mat s) face,
            ModelDetect (rectangle c (image_mat s) face) face,
            DrawLandmarks (rectangle c (image_mat s) face) (current_landmarks (snd (loop_body c key s))),
            CoutTimings,
            Imshow (draw_landmarks c (rectangle c (image_mat s) face)
                      (current_landmarks (snd (loop_body c key s)))),
            WaitKey] \<and>
         \<not> have_face (snd (loop_body c key s)) \<and>
         fst (loop_body c key s) = break_on_key key"
  using assms by (simp add: loop_body_face model_inputs_append)

theorem cold_start_takes_first_candidate_witness:
  "\<not> have_face (init_state (1, []) :: (canvas, int \<times> int) track_state) \<and>
   detectMultiScale studio (image_mat (init_state (1, []) :: (canvas, int \<times> int) track_state)) =
     face_a # [face_b] \<and>
   model_inputs (trace (snd (loop_body studio (- 1) (init_state (1, []))))) = [((1, [Box face_a]), face_a)] \<and>
   current_landmarks (snd (loop_body studio (- 1) (init_state (1, [])))) = [(100, 50), (180, 50)]"
proof -
  have h: "\<not> have_face (init_state (1, []) :: (canvas, int \<times> int) track_state)"
    by (simp add: init_state_def)
  have d: "detectMultiScale studio (image_mat (init_state (1, []) :: (canvas, int \<times> int) track_state)) =
      face_a # [face_b]"
    by (simp add: init_state_def studio_def)
  from cold_start_takes_first_candidate [OF h d, of "- 1"] h d show ?thesis
    by (simp add: init_state_def studio_def face_a_def)
qed

section \<open>The tracking branch\<close>


section \<open>Drawing on the frame\<close>

text \<open>
  One iteration on frame \<open>1\<close>, on which a face is found: the landmark model is handed the
  frame with the detection box already drawn on it, not the frame as captured, and the
  image buffer ends as the frame with box and landmarks.
\<close>

theorem frame_drawn_in_place_counterexample:
  "model_inputs (trace (snd (loop_body studio (- 1) (init_state (1, []))))) = [((1, [Box face_a]), face_a)] \<and>
   (1, [Box face_a]) \<noteq> ((1, []) :: canvas) \<and>
   image_mat (snd (loop_body studio (- 1) (init_state (1, [])))) =
     (1, [Box face_a, Marks [(100, 50), (180, 50)]]) \<and>
   shown (trace (snd (loop_body studio (- 1) (init_state (1, []))))) =
     [(1, [Box face_a, Marks [(100, 50), (180, 50)]])]"
  by (simp add: loop_body_def emit_def init_state_def studio_def face_a_def Let_def)

text \<open>
  C8, as the code has it. No copy of the frame is made. The face detector is handed the
  frame as captured. When a face is found, the detection box is drawn into that same image,
  the landmark model is run on the image with the box, the landmarks are drawn into it, and
  this image is displayed and is what the buffer holds at the end of the iteration. When no
  face is found, the frame is displayed as captured.
\<close>

theorem frame_drawn_in_place:
  assumes "\<not> have_face s"
  shows "detector_inputs (trace (snd (loop_body c key s))) =
           detector_inputs (trace s) @ [image_mat s] \<and>
         (case detectMultiScale c (image_mat s) of
            [] \<Rightarrow>
              model_inputs (trace (snd (loop_body c key s))) = model_inputs (trace s) \<and>
              shown (trace (snd (loop_body c key s))) = shown (trace s) @ [image_mat s] \<and>
              image_mat (snd (loop_body c key s)) = image_mat s
          | face # others \<Rightarrow>
              model_inputs (trace (snd (loop_body c key s))) =
                model_inputs (trace s) @ [(rectangle c (image_mat s) face, face)] \<and>
              shown (trace (snd (loop_body c key s))) =
                shown (trace s) @
                [draw_landmarks c (rectangle c (image_mat s) face)
                   (model_detect c (rectangle c (image_mat s) face) face)] \<and>
              image_mat (snd (loop_body c key s)) =
                draw_landmarks c (rectangle c (image_mat s) face)
                  (model_detect c (rectangle c (image_mat s) face) face))"
  using assms
  by (cases "detectMultiScale c (image_mat s)")
    (simp_all add: loop_body_no_face loop_body_face detector_inputs_append model_inputs_append
      shown_append)

theorem frame_drawn_in_place_witness:
  "\<not> have_face (init_state (3, []) :: (canvas, int \<times> int) track_state) \<and>
   trace (init_state (3, []) :: (canvas, int \<times> int) track_state) = [] \<and>
   detector_inputs (trace (snd (loop_body studio 27 (init_state (3, []))))) = [(3, [])] \<and>
   model_inputs (trace (snd (loop_body studio 27 (init_state (3, []))))) = [((3, [Box face_a]), face_a)] \<and>
   image_mat (snd (loop_body studio 27 (init_state (3, [])))) =
     (3, [Box face_a, Marks [(100, 50), (180, 50)]])"
proof -
  have h: "\<not> have_face (init_state (3, []) :: (canvas, int \<times> int) track_state)"
    and t: "trace (init_state (3, []) :: (canvas, int \<times> int) track_state) = []"
    by (simp_all add: init_state_def)
  from frame_drawn_in_place [OF h, of studio 27] h t show ?thesis
    by (simp add: init_state_def studio_def face_a_def)
qed

section \<open>Failure of the command line\<close>

text \<open>
  C10. When option parsing raises \<^verbatim>\<open>po::error\<close> (in \<^verbatim>\<open>po::store\<close>, or in
  \<^verbatim>\<open>po::notify\<close> when no help was asked for), \<^verbatim>\<open>main\<close> prints the error message and the
  hint and returns \<^verbatim>\<open>EXIT_SUCCESS\<close>, the exit status of every run that gets through start-up
  and the frame loop.
\<close>

theorem parse_failure_exits_with_success:
  assumes "po_store env = Inl what \<or> (po_store env = Inr False \<and> po_notify env = Some what)"
  shows "main c env img0 = (EXIT_SUCCESS, [ParseError what, HelpHint], None) \<and>
         (\<forall>env'. po_store env' = Inr False \<and> po_notify env' = None \<and>
                  load_detection_model env' = None \<and> face_cascade_load env' \<and> cap_isOpened env' \<longrightarrow>
                  fst (main c env' img0) = fst (main c env img0))"
  using assms by (auto simp: main_def)

theorem parse_failure_exits_with_success_witness:
  "po_store \<lparr>po_store = Inr False, po_notify = Some ''the option --facedetector is required but missing'',
      load_detection_model = None, face_cascade_load = True, cap_isOpened = True,
      frames = [((1, []), - 1)]\<rparr> = Inr False \<and>
   main studio \<lparr>po_store = Inr False, po_notify = Some ''the option --facedetector is required but missing'',
      load_detection_model = None, face_cascade_load = True, cap_isOpened = True,
      frames = [((1, []), - 1)]\<rparr> (0, []) =
     (0, [ParseError ''the option --facedetector is required but missing'', HelpHint], None) \<and>
   fst (main studio \<lparr>po_store = Inr False, po_notify = None,
      load_detection_model = None, face_cascade_load = True, cap_isOpened = True,
      frames = [((1, []), - 1)]\<rparr> (0, [])) = 0"
proof -
  let ?env = "\<lparr>po_store = Inr False, po_notify = Some ''the option --facedetector is required but missing'',
      load_detection_model = None, face_cascade_load = True, cap_isOpened = True,
      frames = [((1 :: nat, [] :: overlay list), - 1 :: int)]\<rparr>"
  let ?ok = "\<lparr>po_store = Inr False, po_notify = None,
      load_detection_model = None, face_cascade_load = True, cap_isOpened = True,
      frames = [((1 :: nat, [] :: overlay list), - 1 :: int)]\<rparr>"
  have h: "po_store ?env = Inl ''the option --facedetector is required but missing'' \<or>
      (po_store ?env = Inr False \<and> po_notify ?env = Some ''the option --facedetector is required but missing'')"
    by simp
  have k: "po_store ?ok = Inr False \<and> po_notify ?ok = None \<and>
      load_detection_model ?ok = None \<and> face_cascade_load ?ok \<and> cap_isOpened ?ok"
    by simp
  from parse_failure_exits_with_success [OF h, of studio "(0, [])"]
  have m: "main studio ?env (0, []) =
      (EXIT_SUCCESS, [ParseError ''the option --facedetector is required but missing'', HelpHint], None)"
    and a: "\<forall>env'. po_store env' = Inr False \<and> po_notify env' = None \<and>
                  load_detection_model env' = None \<and> face_cascade_load env' \<and> cap_isOpened env' \<longrightarrow>
                  fst (main studio env' (0, [])) = fst (main studio ?env (0, []))"
    by blast+
  from a [rule_format, OF k] m show ?thesis
    by (simp add: EXIT_SUCCESS_def)
qed

end
